theory Spec2Isabelle
  imports Main
begin

section \<open>Data model\<close>

text \<open>
  The proxy keeps a list of discovered service instances (\<open>[]ECSService\<close>) and redirects
  each request to the instance whose name contains the value of a routing header.
  Both revisions of the program are embedded: the single-file program (configuration,
  discovery and handler in one \<open>main.go\<close>) and the program under \<open>src/\<close> with its separate
  configuration file. Where the two revisions differ, the definitions taken from the
  \<open>src/\<close> program and its configuration file carry the suffixes \<open>_src\<close> and \<open>_cfg\<close>.
\<close>

record ECSService =
  Name :: string
  IP :: string

record Config =
  AWSRegion :: string
  ECSCluster :: string
  ProxyPort :: string
  HeaderRoutingName :: string

text \<open>
  How a Go computation can stop before it returns: \<open>log.Fatalf\<close> prints and calls
  \<open>os.Exit(1)\<close>; \<open>panic(err)\<close> carries the error's text; dereferencing a nil pointer
  panics.
\<close>

datatype failure = OsExit string | PanicError string | NilDereference

section \<open>Lookup\<close>

text \<open>
  \<open>strings.HasPrefix\<close> and \<open>strings.Contains\<close> of the Go standard library:
  \<open>Contains s substr\<close> reports whether \<open>substr\<close> occurs in \<open>s\<close> at some position.
\<close>

fun HasPrefix :: "string \<Rightarrow> string \<Rightarrow> bool" where
  "HasPrefix s [] = True"
| "HasPrefix [] (c # p) = False"
| "HasPrefix (d # s) (c # p) = (d = c \<and> HasPrefix s p)"

fun Contains :: "string \<Rightarrow> string \<Rightarrow> bool" where
  "Contains [] substr = (substr = [])"
| "Contains (c # s) substr = (HasPrefix (c # s) substr \<or> Contains s substr)"

text \<open>
  \<open>getServiceDetail\<close>: the first service, in slice order, whose name contains the
  routing key; \<open>("", false)\<close> when the loop ends without a match.
\<close>

fun getServiceDetail :: "string \<Rightarrow> ECSService list \<Rightarrow> string \<times> bool" where
  "getServiceDetail orgID [] = ([], False)"
| "getServiceDetail orgID (svc # services) =
     (if Contains (Name svc) orgID then (IP svc, True)
      else getServiceDetail orgID services)"

section \<open>Configuration\<close>

text \<open>
  The environment of the process; \<open>os.LookupEnv\<close> returns the value and whether the
  variable is set, and the empty string for a variable that is not set.
\<close>

type_synonym environ = "string \<rightharpoonup> string"

definition LookupEnv :: "environ \<Rightarrow> string \<Rightarrow> string \<times> bool" where
  "LookupEnv env key = (case env key of Some v \<Rightarrow> (v, True) | None \<Rightarrow> ([], False))"

text \<open>
  \<open>getEnv\<close> of the single-file program: a variable that is set wins; a variable that is not
  set and has no default panics with the error \<open>missing mandatory env <key>\<close>.
\<close>

definition getEnv :: "environ \<Rightarrow> string \<Rightarrow> string \<Rightarrow> failure + string" where
  "getEnv env key defaultValue =
     (let (val, exists) = LookupEnv env key in
      if exists then Inr val
      else if val = [] \<and> defaultValue = []
        then Inl (PanicError (''missing mandatory env '' @ key))
      else Inr defaultValue)"

text \<open>
  \<open>LoadConfig\<close> evaluates the four fields of the struct literal in order; the first panic
  ends it.
\<close>

definition LoadConfig :: "environ \<Rightarrow> failure + Config" where
  "LoadConfig env =
     (case getEnv env ''AWS_REGION'' ''us-west-2'' of Inl f \<Rightarrow> Inl f | Inr region \<Rightarrow>
      (case getEnv env ''ECS_CLUSTER'' [] of Inl f \<Rightarrow> Inl f | Inr cluster \<Rightarrow>
       (case getEnv env ''PROXY_PORT'' ''8080'' of Inl f \<Rightarrow> Inl f | Inr port \<Rightarrow>
        (case getEnv env ''DEFAULT_ORG_ID'' ''X-Org-ID'' of Inl f \<Rightarrow> Inl f | Inr header \<Rightarrow>
          Inr \<lparr>AWSRegion = region, ECSCluster = cluster, ProxyPort = port,
               HeaderRoutingName = header\<rparr>))))"

text \<open>
  \<open>getEnv\<close> of the separate configuration file: in the branch for a missing variable
  without default, \<open>fmt.Errorf\<close> builds the error value and the statement drops it; control
  falls through to \<open>return defaultValue\<close>. The function cannot fail.
\<close>

definition getEnv_cfg :: "environ \<Rightarrow> string \<Rightarrow> string \<Rightarrow> string" where
  "getEnv_cfg env key defaultValue =
     (let (val, exists) = LookupEnv env key in
      if exists then val
      else if val = [] \<and> defaultValue = [] then defaultValue
      else defaultValue)"

definition LoadConfig_cfg :: "environ \<Rightarrow> Config" where
  "LoadConfig_cfg env =
     \<lparr>AWSRegion = getEnv_cfg env ''AWS_REGION'' ''us-west-2'',
      ECSCluster = getEnv_cfg env ''ECS_CLUSTER'' [],
      ProxyPort = getEnv_cfg env ''PROXY_PORT'' ''8080'',
      HeaderRoutingName = getEnv_cfg env ''DEFAULT_ORG_ID'' ''X-Org-ID''\<rparr>"

section \<open>The orchestrator client\<close>

text \<open>
  The part of the ECS SDK the program reads. The SDK's string fields are pointers
  (\<open>*string\<close>), nil when the service left the field out: they are options here, and the
  program's \<open>*container.Name\<close> and \<open>*network.PrivateIpv4Address\<close> panic on \<open>None\<close>. The field
  \<open>Name\<close> of a container is called \<open>ContainerName\<close>, since \<open>Name\<close> is the field of
  \<open>ECSService\<close>. Task and service identifiers (ARNs) are passed on without being read.
\<close>

type_synonym aws_error = string

record NetworkInterface =
  PrivateIpv4Address :: "string option"

record Container =
  ContainerName :: "string option"
  NetworkInterfaces :: "NetworkInterface list"

record Task =
  Containers :: "Container list"

text \<open>
  The client, as the answers it gives while one discovery pass runs: \<open>ListServices\<close> for a
  cluster, \<open>ListTasks\<close> for a cluster and an optional service name, \<open>DescribeTasks\<close> for a
  cluster and a list of task identifiers. Each returns the SDK's error or the listed
  values.
\<close>

record ECS =
  ListServices :: "string \<Rightarrow> aws_error + string list"
  ListTasks :: "string \<Rightarrow> string option \<Rightarrow> aws_error + string list"
  DescribeTasks :: "string \<Rightarrow> string list \<Rightarrow> aws_error + Task list"

section \<open>Discovery\<close>

definition listServices :: "ECS \<Rightarrow> string \<Rightarrow> aws_error + string list" where
  "listServices ecsClient cluster =
     (case ListServices ecsClient cluster of Inl err \<Rightarrow> Inl err
      | Inr serviceArns \<Rightarrow> Inr serviceArns)"

text \<open>\<open>listTasks\<close> of the single-file program: one call for the whole cluster.\<close>

definition listTasks :: "ECS \<Rightarrow> string \<Rightarrow> aws_error + string list" where
  "listTasks ecsClient cluster =
     (case ListTasks ecsClient cluster None of Inl err \<Rightarrow> Inl err
      | Inr taskArns \<Rightarrow> Inr ([] @ taskArns))"

text \<open>
  \<open>listTasks\<close> of the program under \<open>src/\<close>: one call per service, the task identifiers
  appended in service order; the first error ends the loop.
\<close>

fun listTasks_src_loop ::
  "ECS \<Rightarrow> string \<Rightarrow> string list \<Rightarrow> string list \<Rightarrow> aws_error + string list" where
  "listTasks_src_loop ecsClient cluster [] tasks = Inr tasks"
| "listTasks_src_loop ecsClient cluster (service # services) tasks =
     (case ListTasks ecsClient cluster (Some service) of Inl err \<Rightarrow> Inl err
      | Inr taskArns \<Rightarrow> listTasks_src_loop ecsClient cluster services (tasks @ taskArns))"

definition listTasks_src :: "ECS \<Rightarrow> string \<Rightarrow> string list \<Rightarrow> aws_error + string list" where
  "listTasks_src ecsClient cluster services = listTasks_src_loop ecsClient cluster services []"

text \<open>
  The three inner loops of \<open>getServiceDetails\<close>, each appending to \<open>serviceDetails\<close>: over
  the network interfaces of a container, over the containers of a task, over the tasks of
  one \<open>DescribeTasks\<close> answer. The two dereferences happen once per network interface.
\<close>

fun networks_loop ::
  "string option \<Rightarrow> NetworkInterface list \<Rightarrow> ECSService list \<Rightarrow> failure + ECSService list" where
  "networks_loop name [] serviceDetails = Inr serviceDetails"
| "networks_loop name (network # networks) serviceDetails =
     (case name of None \<Rightarrow> Inl NilDereference
      | Some n \<Rightarrow>
         (case PrivateIpv4Address network of None \<Rightarrow> Inl NilDereference
          | Some ip \<Rightarrow> networks_loop name networks (serviceDetails @ [\<lparr>Name = n, IP = ip\<rparr>])))"

fun containers_loop :: "Container list \<Rightarrow> ECSService list \<Rightarrow> failure + ECSService list" where
  "containers_loop [] serviceDetails = Inr serviceDetails"
| "containers_loop (container # containers) serviceDetails =
     (case networks_loop (ContainerName container) (NetworkInterfaces container) serviceDetails of
        Inl f \<Rightarrow> Inl f
      | Inr serviceDetails' \<Rightarrow> containers_loop containers serviceDetails')"

fun tasks_loop :: "Task list \<Rightarrow> ECSService list \<Rightarrow> failure + ECSService list" where
  "tasks_loop [] serviceDetails = Inr serviceDetails"
| "tasks_loop (task # tasks) serviceDetails =
     (case containers_loop (Containers task) serviceDetails of
        Inl f \<Rightarrow> Inl f
      | Inr serviceDetails' \<Rightarrow> tasks_loop tasks serviceDetails')"

text \<open>
  The outer loop: every task identifier is described by a call of its own; an error is
  logged and the loop continues with the next identifier.
\<close>

fun getServiceDetails_loop ::
  "ECS \<Rightarrow> string \<Rightarrow> string list \<Rightarrow> ECSService list \<Rightarrow> failure + ECSService list" where
  "getServiceDetails_loop ecsClient cluster [] serviceDetails = Inr serviceDetails"
| "getServiceDetails_loop ecsClient cluster (taskArn # tasks) serviceDetails =
     (case DescribeTasks ecsClient cluster [taskArn] of
        Inl err \<Rightarrow> getServiceDetails_loop ecsClient cluster tasks serviceDetails
      | Inr described \<Rightarrow>
         (case tasks_loop described serviceDetails of
            Inl f \<Rightarrow> Inl f
          | Inr serviceDetails' \<Rightarrow> getServiceDetails_loop ecsClient cluster tasks serviceDetails'))"

definition getServiceDetails :: "ECS \<Rightarrow> string \<Rightarrow> string list \<Rightarrow> failure + ECSService list" where
  "getServiceDetails ecsClient cluster tasks = getServiceDetails_loop ecsClient cluster tasks []"

text \<open>
  \<open>buildServiceDetails\<close>: an error of \<open>listServices\<close> or \<open>listTasks\<close> goes to \<open>log.Fatalf\<close>,
  which ends the process.
\<close>

definition buildServiceDetails :: "ECS \<Rightarrow> string \<Rightarrow> failure + ECSService list" where
  "buildServiceDetails ecsClient cluster =
     (case listServices ecsClient cluster of
        Inl err \<Rightarrow> Inl (OsExit (''Failed to list services: '' @ err))
      | Inr services \<Rightarrow>
         (case listTasks ecsClient cluster of
            Inl err \<Rightarrow> Inl (OsExit (''Failed to list tasks: '' @ err))
          | Inr tasks \<Rightarrow> getServiceDetails ecsClient cluster tasks))"

definition buildServiceDetails_src :: "ECS \<Rightarrow> string \<Rightarrow> failure + ECSService list" where
  "buildServiceDetails_src ecsClient cluster =
     (case listServices ecsClient cluster of
        Inl err \<Rightarrow> Inl (OsExit (''Failed to list services: '' @ err))
      | Inr services \<Rightarrow>
         (case listTasks_src ecsClient cluster services of
            Inl err \<Rightarrow> Inl (OsExit (''Failed to list tasks: '' @ err))
          | Inr tasks \<Rightarrow> getServiceDetails ecsClient cluster tasks))"

section \<open>The request handler\<close>

text \<open>
  A request, as far as the handler reads it: its header fields. \<open>Header.Get\<close> of
  \<open>net/http\<close> returns the first value stored under the key, and the empty string when
  there is none. The server stores the fields under their canonical names and \<open>Get\<close>
  canonicalises its key in the same way; the map here is indexed by the name as \<open>Get\<close>
  resolves it.
\<close>

record Request =
  Header :: "string \<rightharpoonup> string list"

definition Header_Get :: "(string \<rightharpoonup> string list) \<Rightarrow> string \<Rightarrow> string" where
  "Header_Get h key = (case h key of None \<Rightarrow> [] | Some [] \<Rightarrow> [] | Some (v # vs) \<Rightarrow> v)"

definition StatusTemporaryRedirect :: nat where "StatusTemporaryRedirect = 307"
definition StatusBadRequest :: nat where "StatusBadRequest = 400"
definition StatusNotFound :: nat where "StatusNotFound = 404"

text \<open>
  What the handler does, in program order: a call of \<open>getServiceDetail\<close> with a key, a
  call of \<open>buildServiceDetails\<close>, \<open>http.Error\<close> with a message and a status, \<open>http.Redirect\<close>
  with a URL and a status.
\<close>

datatype event = Lookup string | Refresh | HttpError string nat | HttpRedirect string nat

text \<open>
  How a run of the handler ends: it returns, leaving the shared variable \<open>serviceDetails\<close>
  with the given value; it panics (the server recovers a handler's panic and goes on
  serving, \<open>serviceDetails\<close> as given); or the process exits.
\<close>

datatype outcome =
  Returned "ECSService list" | Panicked failure "ECSService list" | Exited failure

definition aborted :: "failure \<Rightarrow> ECSService list \<Rightarrow> outcome" where
  "aborted f serviceDetails =
     (case f of OsExit m \<Rightarrow> Exited f | PanicError m \<Rightarrow> Panicked f serviceDetails
      | NilDereference \<Rightarrow> Panicked f serviceDetails)"

text \<open>
  The function registered for the path \<open>/\<close>. \<open>build\<close> is \<open>buildServiceDetails\<close> applied to
  the client; \<open>serviceDetails\<close> is the variable of \<open>main\<close> that the closure reads and
  assigns. The branch for the empty header value calls \<open>http.Error\<close> and does not
  return: the lookup follows it. The assignment to \<open>serviceDetails\<close> happens when
  \<open>buildServiceDetails\<close> returns.
\<close>

definition route ::
  "(string \<Rightarrow> failure + ECSService list) \<Rightarrow> Config \<Rightarrow> Request \<Rightarrow> ECSService list
     \<Rightarrow> event list \<times> outcome" where
  "route build config r serviceDetails =
     (let orgID = Header_Get (Header r) (HeaderRoutingName config);
          missing = (if orgID = []
            then [HttpError (''missing required header '' @ HeaderRoutingName config)
                    StatusBadRequest]
            else []);
          (serviceIP, ok) = getServiceDetail orgID serviceDetails
      in if \<not> ok then
           (case build (ECSCluster config) of
              Inl f \<Rightarrow> (missing @ [Lookup orgID, Refresh], aborted f serviceDetails)
            | Inr serviceDetails' \<Rightarrow>
               (let (serviceIP', ok') = getServiceDetail orgID serviceDetails'
                in if \<not> ok' then
                     (missing @ [Lookup orgID, Refresh, Lookup orgID,
                        HttpError ''Service not found for Org-ID'' StatusNotFound],
                      Returned serviceDetails')
                   else
                     (missing @ [Lookup orgID, Refresh, Lookup orgID,
                        HttpRedirect (''http://'' @ serviceIP') StatusTemporaryRedirect],
                      Returned serviceDetails')))
         else
           (missing @ [Lookup orgID,
              HttpRedirect (''http://'' @ serviceIP) StatusTemporaryRedirect],
            Returned serviceDetails))"

definition handler :: "ECS \<Rightarrow> Config \<Rightarrow> Request \<Rightarrow> ECSService list \<Rightarrow> event list \<times> outcome" where
  "handler ecsClient = route (buildServiceDetails ecsClient)"

definition handler_src :: "ECS \<Rightarrow> Config \<Rightarrow> Request \<Rightarrow> ECSService list \<Rightarrow> event list \<times> outcome" where
  "handler_src ecsClient = route (buildServiceDetails_src ecsClient)"

text \<open>
  The snapshot in effect after a run of the handler: none once the process has exited.
\<close>

definition published :: "outcome \<Rightarrow> ECSService list option" where
  "published out =
     (case out of Returned s \<Rightarrow> Some s | Panicked f s \<Rightarrow> Some s | Exited f \<Rightarrow> None)"

text \<open>
  What \<open>net/http\<close> sends for the handler's calls: the first call that writes the response
  header fixes the status (a later \<open>WriteHeader\<close> is ignored as superfluous), and the
  \<open>Location\<close> field is sent only when that first call is the redirect, since fields set
  after the header was written are not sent.
\<close>

fun status_sent :: "event list \<Rightarrow> nat option" where
  "status_sent [] = None"
| "status_sent (HttpError msg code # es) = Some code"
| "status_sent (HttpRedirect url code # es) = Some code"
| "status_sent (Lookup k # es) = status_sent es"
| "status_sent (Refresh # es) = status_sent es"

fun location_sent :: "event list \<Rightarrow> string option" where
  "location_sent [] = None"
| "location_sent (HttpError msg code # es) = None"
| "location_sent (HttpRedirect url code # es) = Some url"
| "location_sent (Lookup k # es) = location_sent es"
| "location_sent (Refresh # es) = location_sent es"

text \<open>
  Several runs of the handler, each with the answers the client gives it, its request and
  the value of \<open>serviceDetails\<close> that its first lookup read: whether the first lookup of a
  run misses, and how many calls of \<open>buildServiceDetails\<close> the runs make together. A run's
  calls depend on nothing but these three, since the handler shares no other state and
  takes no lock.
\<close>

definition first_lookup_misses ::
  "Config \<Rightarrow> (string \<Rightarrow> failure + ECSService list) \<times> Request \<times> ECSService list \<Rightarrow> bool" where
  "first_lookup_misses config run =
     (case run of (build, r, serviceDetails) \<Rightarrow>
        \<not> snd (getServiceDetail (Header_Get (Header r) (HeaderRoutingName config)) serviceDetails))"

definition refreshes_issued ::
  "Config \<Rightarrow> ((string \<Rightarrow> failure + ECSService list) \<times> Request \<times> ECSService list) list \<Rightarrow> nat" where
  "refreshes_issued config runs =
     sum_list (map (\<lambda>(build, r, serviceDetails).
        count_list (fst (route build config r serviceDetails)) Refresh) runs)"


section \<open>Startup\<close>

text \<open>
  \<open>main\<close> up to \<open>http.ListenAndServe\<close>: the configuration is loaded, the AWS session is
  created (\<open>session.Must\<close> panics on an error), the first snapshot is built, and the process
  serves. Each step that fails stops the process before it listens.
\<close>

datatype process = Serving Config "ECSService list" | Stopped failure

definition startup ::
  "failure + Config \<Rightarrow> aws_error option \<Rightarrow> (string \<Rightarrow> failure + ECSService list) \<Rightarrow> process" where
  "startup loaded newSession build =
     (case loaded of Inl f \<Rightarrow> Stopped f
      | Inr config \<Rightarrow>
         (case newSession of Some err \<Rightarrow> Stopped (PanicError err)
          | None \<Rightarrow>
             (case build (ECSCluster config) of Inl f \<Rightarrow> Stopped f
              | Inr serviceDetails \<Rightarrow> Serving config serviceDetails)))"

definition main :: "environ \<Rightarrow> aws_error option \<Rightarrow> ECS \<Rightarrow> process" where
  "main env newSession ecsClient =
     startup (LoadConfig env) newSession (buildServiceDetails ecsClient)"

definition main_src :: "environ \<Rightarrow> aws_error option \<Rightarrow> ECS \<Rightarrow> process" where
  "main_src env newSession ecsClient =
     startup (Inr (LoadConfig_cfg env)) newSession (buildServiceDetails_src ecsClient)"

section \<open>The flattening a snapshot is compared with\<close>

text \<open>
  Written from the specification's words, to compare the loops with: the (container name,
  private IPv4 address) pairs of a task in container and interface order; the pairs
  derived from a task identifier, which are those of the tasks its description returned;
  and the flattening over the identifiers whose description succeeded, in order.
\<close>

definition pairs_of_task :: "Task \<Rightarrow> (string option \<times> string option) list" where
  "pairs_of_task task =
     concat (map (\<lambda>container.
        map (\<lambda>network. (ContainerName container, PrivateIpv4Address network))
          (NetworkInterfaces container)) (Containers task))"

definition succeeded :: "ECS \<Rightarrow> string \<Rightarrow> string \<Rightarrow> bool" where
  "succeeded ecsClient cluster taskArn =
     (case DescribeTasks ecsClient cluster [taskArn] of Inl err \<Rightarrow> False | Inr ts \<Rightarrow> True)"

definition derived_pairs :: "ECS \<Rightarrow> string \<Rightarrow> string \<Rightarrow> (string option \<times> string option) list" where
  "derived_pairs ecsClient cluster taskArn =
     (case DescribeTasks ecsClient cluster [taskArn] of Inl err \<Rightarrow> []
      | Inr ts \<Rightarrow> concat (map pairs_of_task ts))"

definition flattening :: "ECS \<Rightarrow> string \<Rightarrow> string list \<Rightarrow> (string option \<times> string option) list" where
  "flattening ecsClient cluster tasks =
     concat (map (derived_pairs ecsClient cluster) (filter (succeeded ecsClient cluster) tasks))"

definition pair_of :: "ECSService \<Rightarrow> string option \<times> string option" where
  "pair_of svc = (Some (Name svc), Some (IP svc))"

section \<open>Example inputs\<close>

text \<open>
  Inputs on which the definitions are evaluated: a configuration with the default header
  name, a snapshot of one instance, a request that carries a routing key and one without
  the header, a cluster with nothing running, a cluster whose \<open>ListServices\<close> fails, and a
  cluster of three tasks in two services where the description of the second task fails,
  one container has neither a name nor a network interface, and one described task has no
  container; and a cluster of three tasks where the description of the second fails and
  the network interface of the third carries no IPv4 address.
\<close>

definition demo_config :: Config where
  "demo_config = \<lparr>AWSRegion = ''us-west-2'', ECSCluster = ''prod'', ProxyPort = ''8080'',
     HeaderRoutingName = ''X-Org-ID''\<rparr>"

definition demo_snapshot :: "ECSService list" where
  "demo_snapshot = [\<lparr>Name = ''org-42-api'', IP = ''10.0.0.5''\<rparr>]"

definition request_with :: "string \<Rightarrow> Request" where
  "request_with key = \<lparr>Header = [''X-Org-ID'' \<mapsto> [key]]\<rparr>"

definition request_without_header :: Request where
  "request_without_header = \<lparr>Header = Map.empty\<rparr>"

definition idle_ecs :: ECS where
  "idle_ecs = \<lparr>ListServices = (\<lambda>cluster. Inr []), ListTasks = (\<lambda>cluster service. Inr []),
     DescribeTasks = (\<lambda>cluster arns. Inr [])\<rparr>"

definition down_ecs :: ECS where
  "down_ecs = \<lparr>ListServices = (\<lambda>cluster. Inl ''timeout''),
     ListTasks = (\<lambda>cluster service. Inr []), DescribeTasks = (\<lambda>cluster arns. Inr [])\<rparr>"

definition demo_ecs :: ECS where
  "demo_ecs =
     \<lparr>ListServices = (\<lambda>cluster. Inr [''svc-a'', ''svc-b'']),
      ListTasks = (\<lambda>cluster service.
        if service = None then Inr [''task-1'', ''task-2'', ''task-3'']
        else if service = Some ''svc-a'' then Inr [''task-1'', ''task-2'']
        else Inr [''task-3'']),
      DescribeTasks = (\<lambda>cluster arns.
        if arns = [''task-1''] then
          Inr [\<lparr>Containers =
            [\<lparr>ContainerName = Some ''org-42-api'',
              NetworkInterfaces = [\<lparr>PrivateIpv4Address = Some ''10.0.0.5''\<rparr>]\<rparr>,
             \<lparr>ContainerName = None, NetworkInterfaces = []\<rparr>]\<rparr>]
        else if arns = [''task-2''] then Inl ''throttled''
        else if arns = [''task-3''] then
          Inr [\<lparr>Containers =
            [\<lparr>ContainerName = Some ''org-7-api'',
              NetworkInterfaces = [\<lparr>PrivateIpv4Address = Some ''10.0.0.7''\<rparr>,
                \<lparr>PrivateIpv4Address = Some ''10.0.1.7''\<rparr>]\<rparr>]\<rparr>,
               \<lparr>Containers = []\<rparr>]
        else Inr [])\<rparr>"

definition nil_address_ecs :: ECS where
  "nil_address_ecs =
     \<lparr>ListServices = (\<lambda>cluster. Inr [''svc-a'']),
      ListTasks = (\<lambda>cluster service. Inr [''task-1'', ''task-2'', ''task-3'']),
      DescribeTasks = (\<lambda>cluster arns.
        if arns = [''task-1''] then
          Inr [\<lparr>Containers =
            [\<lparr>ContainerName = Some ''org-42-api'',
              NetworkInterfaces = [\<lparr>PrivateIpv4Address = Some ''10.0.0.5''\<rparr>]\<rparr>]\<rparr>]
        else if arns = [''task-2''] then Inl ''throttled''
        else if arns = [''task-3''] then
          Inr [\<lparr>Containers =
            [\<lparr>ContainerName = Some ''org-7-api'',
              NetworkInterfaces = [\<lparr>PrivateIpv4Address = None\<rparr>]\<rparr>]\<rparr>]
        else Inr [])\<rparr>"

section \<open>Properties of the lookup\<close>

lemma HasPrefix_iff: "HasPrefix s p \<longleftrightarrow> (\<exists>v. s = p @ v)"
  by (induction s p rule: HasPrefix.induct) auto

lemma Contains_iff: "Contains s k \<longleftrightarrow> (\<exists>u v. s = u @ k @ v)"
proof (induction s)
  case Nil
  then show ?case by auto
next
  case (Cons c s)
  show ?case
  proof
    assume "Contains (c # s) k"
    then consider "HasPrefix (c # s) k" | "Contains s k" by auto
    then show "\<exists>u v. c # s = u @ k @ v"
    proof cases
      case 1
      then obtain v where "c # s = k @ v" by (auto simp: HasPrefix_iff)
      then have "c # s = [] @ k @ v" by simp
      then show ?thesis by blast
    next
      case 2
      then obtain u v where "s = u @ k @ v" using Cons.IH by blast
      then have "c # s = (c # u) @ k @ v" by simp
      then show ?thesis by blast
    qed
  next
    assume "\<exists>u v. c # s = u @ k @ v"
    then obtain u v where uv: "c # s = u @ k @ v" by blast
    show "Contains (c # s) k"
    proof (cases u)
      case Nil
      with uv have "HasPrefix (c # s) k" by (auto simp: HasPrefix_iff)
      then show ?thesis by simp
    next
      case (Cons d u')
      with uv have "s = u' @ k @ v" by simp
      then have "Contains s k" using Cons.IH by blast
      then show ?thesis by simp
    qed
  qed
qed

lemma Contains_empty_key: "Contains s []"
  by (cases s) auto

lemma getServiceDetail_found:
  "snd (getServiceDetail k services) \<Longrightarrow>
     \<exists>pre s post. services = pre @ s # post \<and> (\<forall>p \<in> set pre. \<not> Contains (Name p) k)
       \<and> Contains (Name s) k \<and> getServiceDetail k services = (IP s, True)"
proof (induction services)
  case Nil
  then show ?case by simp
next
  case (Cons a services)
  show ?case
  proof (cases "Contains (Name a) k")
    case True
    then have "a # services = [] @ a # services \<and> (\<forall>p \<in> set []. \<not> Contains (Name p) k)
        \<and> Contains (Name a) k \<and> getServiceDetail k (a # services) = (IP a, True)"
      by simp
    then show ?thesis by blast
  next
    case False
    with Cons.prems have "snd (getServiceDetail k services)" by simp
    then obtain pre s post where h: "services = pre @ s # post"
        "\<forall>p \<in> set pre. \<not> Contains (Name p) k" "Contains (Name s) k"
        "getServiceDetail k services = (IP s, True)"
      using Cons.IH by blast
    with False have "a # services = (a # pre) @ s # post
        \<and> (\<forall>p \<in> set (a # pre). \<not> Contains (Name p) k)
        \<and> Contains (Name s) k \<and> getServiceDetail k (a # services) = (IP s, True)"
      by simp
    then show ?thesis by blast
  qed
qed

text \<open>
  Claim C1. For every snapshot and every routing key \<open>k\<close>, the lookup succeeds exactly
  when the name of some instance contains \<open>k\<close> as a substring (the name is \<open>u @ k @ v\<close>
  for some \<open>u\<close>, \<open>v\<close>); when it succeeds, the snapshot splits into instances that do not
  match, the first matching instance, and the rest, and the answer is the IP of that first
  matching instance; when it does not succeed, the answer is the empty string and false.
\<close>

theorem getServiceDetail_first_substring_match:
  "(snd (getServiceDetail k services) \<longleftrightarrow> (\<exists>s \<in> set services. \<exists>u v. Name s = u @ k @ v))
   \<and> (snd (getServiceDetail k services) \<longrightarrow>
        (\<exists>pre s post. services = pre @ s # post
           \<and> (\<forall>p \<in> set pre. \<not> (\<exists>u v. Name p = u @ k @ v))
           \<and> (\<exists>u v. Name s = u @ k @ v)
           \<and> getServiceDetail k services = (IP s, True)))
   \<and> (\<not> snd (getServiceDetail k services) \<longrightarrow> getServiceDetail k services = ([], False))"
proof (intro conjI impI)
  show "snd (getServiceDetail k services) \<longleftrightarrow> (\<exists>s \<in> set services. \<exists>u v. Name s = u @ k @ v)"
  proof
    assume "snd (getServiceDetail k services)"
    then obtain pre s post where "services = pre @ s # post" "Contains (Name s) k"
      using getServiceDetail_found by blast
    then show "\<exists>s \<in> set services. \<exists>u v. Name s = u @ k @ v"
      by (auto simp: Contains_iff)
  next
    assume "\<exists>s \<in> set services. \<exists>u v. Name s = u @ k @ v"
    then have "\<not> (\<forall>s \<in> set services. \<not> Contains (Name s) k)"
      by (simp add: Contains_iff)
    then show "snd (getServiceDetail k services)"
      by (induction services) auto
  qed
next
  assume "snd (getServiceDetail k services)"
  then show "\<exists>pre s post. services = pre @ s # post
           \<and> (\<forall>p \<in> set pre. \<not> (\<exists>u v. Name p = u @ k @ v))
           \<and> (\<exists>u v. Name s = u @ k @ v)
           \<and> getServiceDetail k services = (IP s, True)"
    using getServiceDetail_found [of k services] by (simp add: Contains_iff)
next
  assume "\<not> snd (getServiceDetail k services)"
  then show "getServiceDetail k services = ([], False)"
    by (induction services) (auto split: if_splits)
qed

text \<open>
  The key \<open>1\<close> against the snapshot \<open>org-7\<close>, \<open>org-1\<close>, \<open>org-10\<close>: the second instance is the
  first whose name contains the key, and its address is the answer.
\<close>

theorem getServiceDetail_first_substring_match_witness:
  "snd (getServiceDetail ''1''
      [\<lparr>Name = ''org-7'', IP = ''10.0.0.7''\<rparr>, \<lparr>Name = ''org-1'', IP = ''10.0.0.1''\<rparr>,
       \<lparr>Name = ''org-10'', IP = ''10.0.0.10''\<rparr>])
   \<and> getServiceDetail ''1''
      [\<lparr>Name = ''org-7'', IP = ''10.0.0.7''\<rparr>, \<lparr>Name = ''org-1'', IP = ''10.0.0.1''\<rparr>,
       \<lparr>Name = ''org-10'', IP = ''10.0.0.10''\<rparr>] = (''10.0.0.1'', True)
   \<and> (\<exists>s \<in> set [\<lparr>Name = ''org-7'', IP = ''10.0.0.7''\<rparr>, \<lparr>Name = ''org-1'', IP = ''10.0.0.1''\<rparr>,
       \<lparr>Name = ''org-10'', IP = ''10.0.0.10''\<rparr>]. \<exists>u v. Name s = u @ ''1'' @ v)"
proof -
  let ?snap = "[\<lparr>Name = ''org-7'', IP = ''10.0.0.7''\<rparr>, \<lparr>Name = ''org-1'', IP = ''10.0.0.1''\<rparr>,
       \<lparr>Name = ''org-10'', IP = ''10.0.0.10''\<rparr>]"
  have r: "getServiceDetail ''1'' ?snap = (''10.0.0.1'', True)" by simp
  then have s: "snd (getServiceDetail ''1'' ?snap)" by simp
  from s getServiceDetail_first_substring_match [of "''1''" ?snap]
  have "\<exists>s \<in> set ?snap. \<exists>u v. Name s = u @ ''1'' @ v" by blast
  with r s show ?thesis by blast
qed

text \<open>
  Claim C10. With the empty routing key the lookup of a non-empty snapshot is found and
  answers the IP of the very first instance, since every name contains the empty string;
  the empty key is not found only in the empty snapshot.
\<close>

theorem getServiceDetail_empty_key:
  "getServiceDetail [] services =
     (case services of [] \<Rightarrow> ([], False) | svc # rest \<Rightarrow> (IP svc, True))
   \<and> (snd (getServiceDetail [] services) \<longleftrightarrow> services \<noteq> [])
   \<and> Contains name []"
  by (cases services) (auto simp: Contains_empty_key)

section \<open>Properties of discovery\<close>

text \<open>
  A snapshot is determined by its list of (name, address) pairs. Each loop that returns
  has appended, to the instances it started with, exactly the pairs that the flattening
  lists for its input, in the same order.
\<close>

lemma pair_of_inj: "map pair_of xs = map pair_of ys \<Longrightarrow> xs = ys"
proof (induction xs arbitrary: ys)
  case Nil
  then show ?case by simp
next
  case (Cons x xs)
  then obtain y ys' where y: "ys = y # ys'" "pair_of x = pair_of y" "map pair_of xs = map pair_of ys'"
    by (cases ys) auto
  from y(2) have "x = y" by (cases x, cases y) (simp add: pair_of_def)
  with y Cons.IH show ?case by simp
qed

lemma networks_loop_Inr:
  "networks_loop name nets acc = Inr out \<Longrightarrow>
     map pair_of out = map pair_of acc @ map (\<lambda>network. (name, PrivateIpv4Address network)) nets"
  by (induction nets arbitrary: acc) (auto simp: pair_of_def split: option.splits)

lemma containers_loop_Inr:
  "containers_loop cs acc = Inr out \<Longrightarrow>
     map pair_of out = map pair_of acc @ pairs_of_task \<lparr>Containers = cs\<rparr>"
  by (induction cs arbitrary: acc) (auto simp: pairs_of_task_def split: sum.splits dest!: networks_loop_Inr)

lemma tasks_loop_Inr:
  "tasks_loop ts acc = Inr out \<Longrightarrow>
     map pair_of out = map pair_of acc @ concat (map pairs_of_task ts)"
proof (induction ts arbitrary: acc)
  case Nil
  then show ?case by simp
next
  case (Cons t ts)
  then obtain mid where m: "containers_loop (Containers t) acc = Inr mid" "tasks_loop ts mid = Inr out"
    by (auto split: sum.splits)
  have "pairs_of_task \<lparr>Containers = Containers t\<rparr> = pairs_of_task t"
    by (simp add: pairs_of_task_def)
  with containers_loop_Inr [OF m(1)] Cons.IH [OF m(2)] show ?case by simp
qed

lemma getServiceDetails_loop_Inr:
  "getServiceDetails_loop ecs cluster arns acc = Inr out \<Longrightarrow>
     map pair_of out = map pair_of acc @ flattening ecs cluster arns"
proof (induction arns arbitrary: acc)
  case Nil
  then show ?case by (simp add: flattening_def)
next
  case (Cons a arns)
  show ?case
  proof (cases "DescribeTasks ecs cluster [a]")
    case (Inl err)
    with Cons.prems have "getServiceDetails_loop ecs cluster arns acc = Inr out" by simp
    from Cons.IH [OF this] Inl show ?thesis
      by (simp add: flattening_def succeeded_def)
  next
    case (Inr ts)
    with Cons.prems obtain mid where m: "tasks_loop ts acc = Inr mid"
        "getServiceDetails_loop ecs cluster arns mid = Inr out"
      by (auto split: sum.splits)
    from tasks_loop_Inr [OF m(1)] Cons.IH [OF m(2)] Inr show ?thesis
      by (simp add: flattening_def succeeded_def derived_pairs_def)
  qed
qed

lemma getServiceDetails_Inr:
  "getServiceDetails ecs cluster tasks = Inr snapshot \<Longrightarrow>
     map pair_of snapshot = flattening ecs cluster tasks"
  using getServiceDetails_loop_Inr [of ecs cluster tasks "[]" snapshot]
  by (simp add: getServiceDetails_def)

text \<open>
  Each loop returns when every name and address it dereferences is present.
\<close>

lemma networks_loop_total:
  "\<forall>p \<in> set (map (\<lambda>network. (name, PrivateIpv4Address network)) nets). fst p \<noteq> None \<and> snd p \<noteq> None \<Longrightarrow>
     \<exists>out. networks_loop name nets acc = Inr out"
  by (induction nets arbitrary: acc) (auto split: option.splits)

lemma containers_loop_total:
  "\<forall>p \<in> set (pairs_of_task \<lparr>Containers = cs\<rparr>). fst p \<noteq> None \<and> snd p \<noteq> None \<Longrightarrow>
     \<exists>out. containers_loop cs acc = Inr out"
proof (induction cs arbitrary: acc)
  case Nil
  then show ?case by simp
next
  case (Cons c cs)
  from Cons.prems have "\<forall>p \<in> set (map (\<lambda>network. (ContainerName c, PrivateIpv4Address network)) (NetworkInterfaces c)). fst p \<noteq> None \<and> snd p \<noteq> None"
    by (simp add: pairs_of_task_def)
  from networks_loop_total [OF this] obtain mid where
    m: "networks_loop (ContainerName c) (NetworkInterfaces c) acc = Inr mid" by blast
  from Cons.prems have "\<forall>p \<in> set (pairs_of_task \<lparr>Containers = cs\<rparr>). fst p \<noteq> None \<and> snd p \<noteq> None"
    by (simp add: pairs_of_task_def)
  from Cons.IH [OF this] obtain out where "containers_loop cs mid = Inr out" by blast
  with m show ?case by simp
qed

lemma tasks_loop_total:
  "\<forall>p \<in> set (concat (map pairs_of_task ts)). fst p \<noteq> None \<and> snd p \<noteq> None \<Longrightarrow>
     \<exists>out. tasks_loop ts acc = Inr out"
proof (induction ts arbitrary: acc)
  case Nil
  then show ?case by simp
next
  case (Cons t ts)
  have e: "pairs_of_task \<lparr>Containers = Containers t\<rparr> = pairs_of_task t"
    by (simp add: pairs_of_task_def)
  from Cons.prems have "\<forall>p \<in> set (pairs_of_task \<lparr>Containers = Containers t\<rparr>). fst p \<noteq> None \<and> snd p \<noteq> None"
    by (simp add: e)
  from containers_loop_total [OF this] obtain mid where
    m: "containers_loop (Containers t) acc = Inr mid" by blast
  from Cons.prems have "\<forall>p \<in> set (concat (map pairs_of_task ts)). fst p \<noteq> None \<and> snd p \<noteq> None"
    by simp
  from Cons.IH [OF this] obtain out where "tasks_loop ts mid = Inr out" by blast
  with m show ?case by simp
qed

lemma getServiceDetails_loop_total:
  "\<forall>p \<in> set (flattening ecs cluster arns). fst p \<noteq> None \<and> snd p \<noteq> None \<Longrightarrow>
     \<exists>out. getServiceDetails_loop ecs cluster arns acc = Inr out"
proof (induction arns arbitrary: acc)
  case Nil
  then show ?case by simp
next
  case (Cons a arns)
  show ?case
  proof (cases "DescribeTasks ecs cluster [a]")
    case (Inl err)
    with Cons.prems have "\<forall>p \<in> set (flattening ecs cluster arns). fst p \<noteq> None \<and> snd p \<noteq> None"
      by (simp add: flattening_def succeeded_def)
    from Cons.IH [OF this] Inl show ?thesis by simp
  next
    case (Inr ts)
    with Cons.prems have a: "\<forall>p \<in> set (concat (map pairs_of_task ts)). fst p \<noteq> None \<and> snd p \<noteq> None"
      and b: "\<forall>p \<in> set (flattening ecs cluster arns). fst p \<noteq> None \<and> snd p \<noteq> None"
      by (auto simp add: flattening_def succeeded_def derived_pairs_def)
    from tasks_loop_total [OF a] obtain mid where m: "tasks_loop ts acc = Inr mid" by blast
    from Cons.IH [OF b] obtain out where "getServiceDetails_loop ecs cluster arns mid = Inr out" by blast
    with m Inr show ?thesis by simp
  qed
qed

lemma getServiceDetails_loop_skip:
  "getServiceDetails_loop ecs cluster (filter (succeeded ecs cluster) arns) acc
     = getServiceDetails_loop ecs cluster arns acc"
  by (induction arns arbitrary: acc) (auto simp: succeeded_def split: sum.splits)

text \<open>
  Claim C4, with the condition the program needs. When \<open>DescribeTasks\<close> fails for some
  task identifiers and succeeds for the others, \<open>getServiceDetails\<close> gives the result it
  gives on the successfully described identifiers alone; and, provided every container
  name and private IPv4 address of the successful descriptions is present (not nil), it
  completes with a snapshot whose (name, address) pairs are exactly the pairs derived from
  the successfully described tasks, in order: the failed tasks add nothing and nothing
  else is lost.
\<close>

theorem getServiceDetails_skips_failed_tasks:
  "getServiceDetails ecs cluster tasks
     = getServiceDetails ecs cluster (filter (succeeded ecs cluster) tasks)
   \<and> ((\<forall>p \<in> set (flattening ecs cluster tasks). fst p \<noteq> None \<and> snd p \<noteq> None) \<longrightarrow>
        (\<exists>snapshot. getServiceDetails ecs cluster tasks = Inr snapshot
           \<and> map pair_of snapshot
               = concat (map (derived_pairs ecs cluster)
                   (filter (succeeded ecs cluster) tasks))))"
proof (intro conjI impI)
  show "getServiceDetails ecs cluster tasks
     = getServiceDetails ecs cluster (filter (succeeded ecs cluster) tasks)"
    by (simp add: getServiceDetails_def getServiceDetails_loop_skip)
next
  assume "\<forall>p \<in> set (flattening ecs cluster tasks). fst p \<noteq> None \<and> snd p \<noteq> None"
  then obtain snapshot where s: "getServiceDetails ecs cluster tasks = Inr snapshot"
    using getServiceDetails_loop_total [of ecs cluster tasks "[]"]
    by (auto simp: getServiceDetails_def)
  then have "map pair_of snapshot = flattening ecs cluster tasks"
    by (rule getServiceDetails_Inr)
  with s show "\<exists>snapshot. getServiceDetails ecs cluster tasks = Inr snapshot
           \<and> map pair_of snapshot
               = concat (map (derived_pairs ecs cluster)
                   (filter (succeeded ecs cluster) tasks))"
    by (simp add: flattening_def)
qed

text \<open>
  In the example cluster the description of \<open>task-2\<close> fails; the snapshot holds the
  instances of \<open>task-1\<close> and \<open>task-3\<close>, as it does when only these two are listed.
\<close>

theorem getServiceDetails_skips_failed_tasks_witness:
  "\<not> succeeded demo_ecs ''prod'' ''task-2''
   \<and> filter (succeeded demo_ecs ''prod'') [''task-1'', ''task-2'', ''task-3'']
       = [''task-1'', ''task-3'']
   \<and> getServiceDetails demo_ecs ''prod'' [''task-1'', ''task-2'', ''task-3'']
       = Inr [\<lparr>Name = ''org-42-api'', IP = ''10.0.0.5''\<rparr>,
              \<lparr>Name = ''org-7-api'', IP = ''10.0.0.7''\<rparr>,
              \<lparr>Name = ''org-7-api'', IP = ''10.0.1.7''\<rparr>]
   \<and> getServiceDetails demo_ecs ''prod'' [''task-1'', ''task-3'']
       = Inr [\<lparr>Name = ''org-42-api'', IP = ''10.0.0.5''\<rparr>,
              \<lparr>Name = ''org-7-api'', IP = ''10.0.0.7''\<rparr>,
              \<lparr>Name = ''org-7-api'', IP = ''10.0.1.7''\<rparr>]"
proof -
  let ?tasks = "[''task-1'', ''task-2'', ''task-3'']"
  have f: "flattening demo_ecs ''prod'' ?tasks
      = [(Some ''org-42-api'', Some ''10.0.0.5''), (Some ''org-7-api'', Some ''10.0.0.7''),
         (Some ''org-7-api'', Some ''10.0.1.7'')]"
    by (simp add: flattening_def succeeded_def derived_pairs_def pairs_of_task_def demo_ecs_def)
  have h: "\<forall>p \<in> set (flattening demo_ecs ''prod'' ?tasks). fst p \<noteq> None \<and> snd p \<noteq> None"
    by (simp add: f)
  have fl: "filter (succeeded demo_ecs ''prod'') ?tasks = [''task-1'', ''task-3'']"
    by (simp add: succeeded_def demo_ecs_def)
  from getServiceDetails_skips_failed_tasks [of demo_ecs "''prod''" ?tasks] h
  obtain snapshot where s: "getServiceDetails demo_ecs ''prod'' ?tasks = Inr snapshot"
      "getServiceDetails demo_ecs ''prod'' ?tasks
         = getServiceDetails demo_ecs ''prod'' (filter (succeeded demo_ecs ''prod'') ?tasks)"
    by blast
  have v: "getServiceDetails demo_ecs ''prod'' ?tasks
       = Inr [\<lparr>Name = ''org-42-api'', IP = ''10.0.0.5''\<rparr>,
              \<lparr>Name = ''org-7-api'', IP = ''10.0.0.7''\<rparr>,
              \<lparr>Name = ''org-7-api'', IP = ''10.0.1.7''\<rparr>]"
    by (simp add: getServiceDetails_def demo_ecs_def)
  have n: "\<not> succeeded demo_ecs ''prod'' ''task-2''"
    by (simp add: succeeded_def demo_ecs_def)
  from s(2) v fl n show ?thesis by simp
qed

text \<open>
  Without the condition the claim fails: the description of \<open>task-2\<close> fails, those of
  \<open>task-1\<close> and \<open>task-3\<close> succeed, and the network interface of \<open>task-3\<close> has no IPv4
  address; the dereference panics, so the refresh does not complete and the instance of
  \<open>task-1\<close> is lost with it.
\<close>

theorem getServiceDetails_nil_address_counterexample:
  "succeeded nil_address_ecs ''prod'' ''task-1''
   \<and> \<not> succeeded nil_address_ecs ''prod'' ''task-2''
   \<and> succeeded nil_address_ecs ''prod'' ''task-3''
   \<and> getServiceDetails nil_address_ecs ''prod'' [''task-1'', ''task-2'', ''task-3'']
       = Inl NilDereference
   \<and> buildServiceDetails nil_address_ecs ''prod'' = Inl NilDereference"
  by (simp add: succeeded_def getServiceDetails_def buildServiceDetails_def listServices_def
      listTasks_def nil_address_ecs_def)

text \<open>
  Claim C9. A refresh that completes has listed the services and the tasks, and its
  snapshot holds, as (name, address) pairs, exactly the flattening over the successfully
  described tasks in task, container and interface order; this holds for both revisions
  of \<open>buildServiceDetails\<close>. A container without network interface leaves the instances
  unchanged, and so does a task all of whose containers have none.
\<close>

theorem buildServiceDetails_flattening:
  "(buildServiceDetails ecs cluster = Inr snapshot \<longrightarrow>
      (\<exists>services tasks. listServices ecs cluster = Inr services
         \<and> listTasks ecs cluster = Inr tasks
         \<and> map pair_of snapshot = flattening ecs cluster tasks))
   \<and> (buildServiceDetails_src ecs cluster = Inr snapshot_src \<longrightarrow>
      (\<exists>services tasks. listServices ecs cluster = Inr services
         \<and> listTasks_src ecs cluster services = Inr tasks
         \<and> map pair_of snapshot_src = flattening ecs cluster tasks))
   \<and> (NetworkInterfaces container = [] \<longrightarrow>
        containers_loop [container] acc = Inr acc
        \<and> pairs_of_task \<lparr>Containers = [container]\<rparr> = [])
   \<and> ((\<forall>c \<in> set (Containers task). NetworkInterfaces c = []) \<longrightarrow>
        tasks_loop [task] acc = Inr acc \<and> pairs_of_task task = [])"
proof (intro conjI impI)
  assume "buildServiceDetails ecs cluster = Inr snapshot"
  then show "\<exists>services tasks. listServices ecs cluster = Inr services
         \<and> listTasks ecs cluster = Inr tasks
         \<and> map pair_of snapshot = flattening ecs cluster tasks"
    by (auto simp: buildServiceDetails_def split: sum.splits dest: getServiceDetails_Inr)
next
  assume "buildServiceDetails_src ecs cluster = Inr snapshot_src"
  then show "\<exists>services tasks. listServices ecs cluster = Inr services
         \<and> listTasks_src ecs cluster services = Inr tasks
         \<and> map pair_of snapshot_src = flattening ecs cluster tasks"
    by (auto simp: buildServiceDetails_src_def split: sum.splits dest: getServiceDetails_Inr)
next
  assume "NetworkInterfaces container = []"
  then show "containers_loop [container] acc = Inr acc" by simp
next
  assume "NetworkInterfaces container = []"
  then show "pairs_of_task \<lparr>Containers = [container]\<rparr> = []"
    by (simp add: pairs_of_task_def)
next
  assume a: "\<forall>c \<in> set (Containers task). NetworkInterfaces c = []"
  have "\<forall>c \<in> set cs. NetworkInterfaces c = [] \<Longrightarrow> containers_loop cs acc = Inr acc" for cs
    by (induction cs) auto
  with a show "tasks_loop [task] acc = Inr acc" by simp
next
  assume "\<forall>c \<in> set (Containers task). NetworkInterfaces c = []"
  then show "pairs_of_task task = []"
    by (simp add: pairs_of_task_def)
qed

text \<open>
  The example cluster: both revisions build the same three instances, which are the
  flattening over its three tasks; a task whose only container has no network interface
  (and no name) adds nothing.
\<close>

theorem buildServiceDetails_flattening_witness:
  "buildServiceDetails demo_ecs ''prod''
     = Inr [\<lparr>Name = ''org-42-api'', IP = ''10.0.0.5''\<rparr>,
            \<lparr>Name = ''org-7-api'', IP = ''10.0.0.7''\<rparr>,
            \<lparr>Name = ''org-7-api'', IP = ''10.0.1.7''\<rparr>]
   \<and> buildServiceDetails_src demo_ecs ''prod'' = buildServiceDetails demo_ecs ''prod''
   \<and> flattening demo_ecs ''prod'' [''task-1'', ''task-2'', ''task-3'']
     = [(Some ''org-42-api'', Some ''10.0.0.5''), (Some ''org-7-api'', Some ''10.0.0.7''),
        (Some ''org-7-api'', Some ''10.0.1.7'')]
   \<and> tasks_loop [\<lparr>Containers = [\<lparr>ContainerName = None, NetworkInterfaces = []\<rparr>]\<rparr>] [] = Inr []"
proof -
  let ?snap = "[\<lparr>Name = ''org-42-api'', IP = ''10.0.0.5''\<rparr>,
            \<lparr>Name = ''org-7-api'', IP = ''10.0.0.7''\<rparr>,
            \<lparr>Name = ''org-7-api'', IP = ''10.0.1.7''\<rparr>]"
  let ?c = "\<lparr>ContainerName = None, NetworkInterfaces = []\<rparr>"
  let ?t = "\<lparr>Containers = [?c]\<rparr>"
  have b: "buildServiceDetails demo_ecs ''prod'' = Inr ?snap"
    by (simp add: buildServiceDetails_def listServices_def listTasks_def getServiceDetails_def
        demo_ecs_def)
  have bs: "buildServiceDetails_src demo_ecs ''prod'' = Inr ?snap"
    by (simp add: buildServiceDetails_src_def listServices_def listTasks_src_def
        getServiceDetails_def demo_ecs_def)
  have lt: "listTasks demo_ecs ''prod'' = Inr [''task-1'', ''task-2'', ''task-3'']"
    by (simp add: listTasks_def demo_ecs_def)
  have n: "NetworkInterfaces ?c = []" by simp
  have a: "\<forall>c \<in> set (Containers ?t). NetworkInterfaces c = []" by simp
  note th = buildServiceDetails_flattening [of demo_ecs "''prod''" ?snap ?snap ?c "[]" ?t]
  from th b lt have f: "map pair_of ?snap = flattening demo_ecs ''prod'' [''task-1'', ''task-2'', ''task-3'']"
    by auto
  from th a have z: "tasks_loop [?t] [] = Inr []" by blast
  from f have "flattening demo_ecs ''prod'' [''task-1'', ''task-2'', ''task-3'']
     = [(Some ''org-42-api'', Some ''10.0.0.5''), (Some ''org-7-api'', Some ''10.0.0.7''),
        (Some ''org-7-api'', Some ''10.0.1.7'')]"
    by (simp add: pair_of_def)
  with b bs z show ?thesis by simp
qed

lemma buildServiceDetails_listServices_fails:
  "ListServices ecs cluster = Inl err \<Longrightarrow>
     buildServiceDetails ecs cluster = Inl (OsExit (''Failed to list services: '' @ err))
     \<and> buildServiceDetails_src ecs cluster = Inl (OsExit (''Failed to list services: '' @ err))"
  by (simp add: buildServiceDetails_def buildServiceDetails_src_def listServices_def)

lemma route_miss_build_fails:
  "\<not> snd (getServiceDetail (Header_Get (Header r) (HeaderRoutingName config)) serviceDetails) \<Longrightarrow>
   build (ECSCluster config) = Inl f \<Longrightarrow>
     snd (route build config r serviceDetails) = aborted f serviceDetails"
  by (simp add: route_def Let_def case_prod_beta)

text \<open>
  Claim C3, as the program has it. When \<open>ListServices\<close> fails, \<open>buildServiceDetails\<close>
  produces no snapshot and ends the process through \<open>log.Fatalf\<close>, in both revisions: at
  startup the process stops before it serves, and a request whose lookup missed ends the
  process in its refresh, so that no snapshot is in effect afterwards and no later lookup
  is answered.
\<close>

theorem listServices_failure_ends_process:
  assumes "ListServices ecs (ECSCluster config) = Inl err"
  shows "buildServiceDetails ecs (ECSCluster config)
           = Inl (OsExit (''Failed to list services: '' @ err))
    \<and> buildServiceDetails_src ecs (ECSCluster config)
           = Inl (OsExit (''Failed to list services: '' @ err))
    \<and> startup (Inr config) None (buildServiceDetails ecs)
           = Stopped (OsExit (''Failed to list services: '' @ err))
    \<and> startup (Inr config) None (buildServiceDetails_src ecs)
           = Stopped (OsExit (''Failed to list services: '' @ err))
    \<and> (\<not> snd (getServiceDetail (Header_Get (Header r) (HeaderRoutingName config)) serviceDetails)
         \<longrightarrow> snd (handler ecs config r serviceDetails)
               = Exited (OsExit (''Failed to list services: '' @ err))
           \<and> snd (handler_src ecs config r serviceDetails)
               = Exited (OsExit (''Failed to list services: '' @ err))
           \<and> published (snd (handler ecs config r serviceDetails)) = None
           \<and> published (snd (handler_src ecs config r serviceDetails)) = None)"
proof -
  let ?f = "OsExit (''Failed to list services: '' @ err)"
  from assms have b: "buildServiceDetails ecs (ECSCluster config) = Inl ?f"
    and bs: "buildServiceDetails_src ecs (ECSCluster config) = Inl ?f"
    by (simp_all add: buildServiceDetails_listServices_fails)
  have s: "startup (Inr config) None (buildServiceDetails ecs) = Stopped ?f"
    "startup (Inr config) None (buildServiceDetails_src ecs) = Stopped ?f"
    by (simp_all add: startup_def b bs)
  have h: "snd (handler ecs config r serviceDetails) = Exited ?f"
      "snd (handler_src ecs config r serviceDetails) = Exited ?f"
    if "\<not> snd (getServiceDetail (Header_Get (Header r) (HeaderRoutingName config)) serviceDetails)"
    using that b bs
    by (simp_all add: handler_def handler_src_def route_miss_build_fails aborted_def)
  from b bs s h show ?thesis by (simp add: published_def)
qed

text \<open>
  A request for the key \<open>99\<close>, which the snapshot does not hold, while \<open>ListServices\<close> times
  out.
\<close>

theorem listServices_failure_ends_process_witness:
  "ListServices down_ecs (ECSCluster demo_config) = Inl ''timeout''
   \<and> getServiceDetail ''99'' demo_snapshot = ([], False)
   \<and> buildServiceDetails down_ecs ''prod'' = Inl (OsExit ''Failed to list services: timeout'')
   \<and> snd (handler down_ecs demo_config (request_with ''99'') demo_snapshot)
       = Exited (OsExit ''Failed to list services: timeout'')
   \<and> published (snd (handler down_ecs demo_config (request_with ''99'') demo_snapshot)) = None"
proof -
  have a: "ListServices down_ecs (ECSCluster demo_config) = Inl ''timeout''"
    by (simp add: down_ecs_def)
  have k: "Header_Get (Header (request_with ''99'')) (HeaderRoutingName demo_config) = ''99''"
    by (simp add: Header_Get_def request_with_def demo_config_def)
  have m: "getServiceDetail ''99'' demo_snapshot = ([], False)"
    by (simp add: demo_snapshot_def)
  have c: "ECSCluster demo_config = ''prod''" by (simp add: demo_config_def)
  from listServices_failure_ends_process [OF a, of "request_with ''99''" demo_snapshot] a m
  show ?thesis by (simp add: k c published_def)
qed

text \<open>
  The claim as the specification words it (the previous snapshot stays in effect after the
  failed refresh) fails on the same request: no snapshot is in effect after it; and the
  same failure at startup stops the process.
\<close>

theorem listServices_failure_counterexample:
  "ListServices down_ecs (ECSCluster demo_config) = Inl ''timeout''
   \<and> published (snd (handler down_ecs demo_config (request_with ''99'') demo_snapshot))
       \<noteq> Some demo_snapshot
   \<and> main [''ECS_CLUSTER'' \<mapsto> ''prod''] None down_ecs
       = Stopped (OsExit ''Failed to list services: timeout'')"
  by (simp add: down_ecs_def demo_config_def published_def handler_def route_def Header_Get_def
      request_with_def demo_snapshot_def buildServiceDetails_def listServices_def aborted_def
      main_def startup_def LoadConfig_def getEnv_def LookupEnv_def)

section \<open>Properties of the handler\<close>

text \<open>
  Claim C6, for a routing key that is not empty. When the key resolves to \<open>ip\<close>, at the first
  lookup or at the lookup that follows the one refresh, the handler's only call on the
  response is \<open>http.Redirect\<close> with the URL \<open>http://ip\<close> and status 307, after one lookup or
  after lookup, refresh and lookup; the status sent is 307 and the \<open>Location\<close> sent is
  \<open>http://ip\<close>.
\<close>

theorem route_redirects_resolved_key:
  assumes "orgID = Header_Get (Header r) (HeaderRoutingName config)" and "orgID \<noteq> []"
    and "getServiceDetail orgID serviceDetails = (ip, True)
         \<or> (\<not> snd (getServiceDetail orgID serviceDetails)
            \<and> build (ECSCluster config) = Inr fresh
            \<and> getServiceDetail orgID fresh = (ip, True))"
  shows "fst (route build config r serviceDetails)
           = (if snd (getServiceDetail orgID serviceDetails) then [Lookup orgID]
              else [Lookup orgID, Refresh, Lookup orgID]) @ [HttpRedirect (''http://'' @ ip) 307]
    \<and> status_sent (fst (route build config r serviceDetails)) = Some 307
    \<and> location_sent (fst (route build config r serviceDetails)) = Some (''http://'' @ ip)"
  using assms
  by (auto simp: route_def Let_def StatusTemporaryRedirect_def case_prod_beta)

text \<open>
  The key \<open>42\<close> resolves in the snapshot; the key \<open>7\<close> resolves after the refresh.
\<close>

theorem route_redirects_resolved_key_witness:
  "fst (handler demo_ecs demo_config (request_with ''42'') demo_snapshot)
     = [Lookup ''42'', HttpRedirect ''http://10.0.0.5'' 307]
   \<and> status_sent (fst (handler demo_ecs demo_config (request_with ''42'') demo_snapshot)) = Some 307
   \<and> location_sent (fst (handler demo_ecs demo_config (request_with ''42'') demo_snapshot))
       = Some ''http://10.0.0.5''
   \<and> fst (handler demo_ecs demo_config (request_with ''7'') demo_snapshot)
     = [Lookup ''7'', Refresh, Lookup ''7'', HttpRedirect ''http://10.0.0.7'' 307]
   \<and> status_sent (fst (handler demo_ecs demo_config (request_with ''7'') demo_snapshot)) = Some 307
   \<and> location_sent (fst (handler demo_ecs demo_config (request_with ''7'') demo_snapshot))
       = Some ''http://10.0.0.7''"
proof -
  have k: "''42'' = Header_Get (Header (request_with ''42'')) (HeaderRoutingName demo_config)"
    "''7'' = Header_Get (Header (request_with ''7'')) (HeaderRoutingName demo_config)"
    by (simp_all add: Header_Get_def request_with_def demo_config_def)
  have n: "''42'' \<noteq> []" "''7'' \<noteq> []" by simp_all
  have hit: "getServiceDetail ''42'' demo_snapshot = (''10.0.0.5'', True)"
    by (simp add: demo_snapshot_def)
  have b: "buildServiceDetails demo_ecs (ECSCluster demo_config)
      = Inr [\<lparr>Name = ''org-42-api'', IP = ''10.0.0.5''\<rparr>,
             \<lparr>Name = ''org-7-api'', IP = ''10.0.0.7''\<rparr>,
             \<lparr>Name = ''org-7-api'', IP = ''10.0.1.7''\<rparr>]"
    by (simp add: buildServiceDetails_def listServices_def listTasks_def getServiceDetails_def
        demo_ecs_def)
  have miss: "\<not> snd (getServiceDetail ''7'' demo_snapshot)"
    by (simp add: demo_snapshot_def)
  have hit2: "getServiceDetail ''7'' [\<lparr>Name = ''org-42-api'', IP = ''10.0.0.5''\<rparr>,
             \<lparr>Name = ''org-7-api'', IP = ''10.0.0.7''\<rparr>,
             \<lparr>Name = ''org-7-api'', IP = ''10.0.1.7''\<rparr>] = (''10.0.0.7'', True)"
    by simp
  from route_redirects_resolved_key [OF k(1) n(1), of demo_snapshot "''10.0.0.5''"
      "buildServiceDetails demo_ecs" "[]"] hit
  have one: "fst (handler demo_ecs demo_config (request_with ''42'') demo_snapshot)
     = [Lookup ''42'', HttpRedirect ''http://10.0.0.5'' 307]
   \<and> status_sent (fst (handler demo_ecs demo_config (request_with ''42'') demo_snapshot)) = Some 307
   \<and> location_sent (fst (handler demo_ecs demo_config (request_with ''42'') demo_snapshot))
       = Some ''http://10.0.0.5''"
    by (simp add: handler_def)
  from route_redirects_resolved_key [OF k(2) n(2), of demo_snapshot "''10.0.0.7''"
      "buildServiceDetails demo_ecs", OF disjI2, OF conjI, OF miss, OF conjI, OF b hit2] miss
  have two: "fst (handler demo_ecs demo_config (request_with ''7'') demo_snapshot)
     = [Lookup ''7'', Refresh, Lookup ''7'', HttpRedirect ''http://10.0.0.7'' 307]
   \<and> status_sent (fst (handler demo_ecs demo_config (request_with ''7'') demo_snapshot)) = Some 307
   \<and> location_sent (fst (handler demo_ecs demo_config (request_with ''7'') demo_snapshot))
       = Some ''http://10.0.0.7''"
    by (simp add: handler_def)
  from one two show ?thesis by simp
qed

text \<open>
  Without the restriction the claim fails: the empty key of a request without the header
  resolves to the first instance of the snapshot, and the response carries status 400 and
  no \<open>Location\<close>.
\<close>

theorem route_empty_key_counterexample:
  "getServiceDetail
       (Header_Get (Header request_without_header) (HeaderRoutingName demo_config))
       demo_snapshot = (''10.0.0.5'', True)
   \<and> status_sent (fst (handler demo_ecs demo_config request_without_header demo_snapshot))
       = Some 400
   \<and> location_sent (fst (handler demo_ecs demo_config request_without_header demo_snapshot))
       = None"
  by (simp add: handler_def route_def Header_Get_def request_without_header_def demo_config_def
      demo_snapshot_def StatusBadRequest_def)

text \<open>
  Claim C7, for a routing key that is not empty, with the message the program sends. When
  the first lookup misses, the handler refreshes exactly once, directly after that lookup;
  it looks the key up once more when the refresh completes, and not at all when the refresh
  fails; when the refresh completes and the key is still not found, it answers 404 with the
  fixed message \<open>Service not found for Org-ID\<close> and returns with the fresh snapshot.
\<close>

theorem route_miss_single_refresh:
  assumes "orgID = Header_Get (Header r) (HeaderRoutingName config)" and "orgID \<noteq> []"
    and "\<not> snd (getServiceDetail orgID serviceDetails)"
  shows "count_list (fst (route build config r serviceDetails)) Refresh = 1
    \<and> count_list (fst (route build config r serviceDetails)) (Lookup orgID)
        = (case build (ECSCluster config) of Inl f \<Rightarrow> 1 | Inr fresh \<Rightarrow> 2)
    \<and> (\<exists>rest. fst (route build config r serviceDetails) = Lookup orgID # Refresh # rest
          \<and> Refresh \<notin> set rest)
    \<and> (\<forall>fresh. build (ECSCluster config) = Inr fresh \<and> \<not> snd (getServiceDetail orgID fresh)
          \<longrightarrow> route build config r serviceDetails
                = ([Lookup orgID, Refresh, Lookup orgID,
                    HttpError ''Service not found for Org-ID'' 404], Returned fresh)
              \<and> status_sent (fst (route build config r serviceDetails)) = Some 404)"
  using assms
  by (cases "build (ECSCluster config)")
     (auto simp: route_def Let_def StatusNotFound_def case_prod_beta)

text \<open>
  The key \<open>99\<close> against a cluster with nothing running.
\<close>

theorem route_miss_single_refresh_witness:
  "handler idle_ecs demo_config (request_with ''99'') demo_snapshot
     = ([Lookup ''99'', Refresh, Lookup ''99'', HttpError ''Service not found for Org-ID'' 404],
        Returned [])
   \<and> status_sent (fst (handler idle_ecs demo_config (request_with ''99'') demo_snapshot)) = Some 404
   \<and> count_list (fst (handler idle_ecs demo_config (request_with ''99'') demo_snapshot)) Refresh = 1
   \<and> count_list (fst (handler idle_ecs demo_config (request_with ''99'') demo_snapshot))
        (Lookup ''99'') = 2"
proof -
  have k: "''99'' = Header_Get (Header (request_with ''99'')) (HeaderRoutingName demo_config)"
    by (simp add: Header_Get_def request_with_def demo_config_def)
  have n: "''99'' \<noteq> []" by simp
  have miss: "\<not> snd (getServiceDetail ''99'' demo_snapshot)"
    by (simp add: demo_snapshot_def)
  have b: "buildServiceDetails idle_ecs (ECSCluster demo_config) = Inr []"
    by (simp add: buildServiceDetails_def listServices_def listTasks_def getServiceDetails_def
        idle_ecs_def)
  have miss2: "\<not> snd (getServiceDetail ''99'' [])" by simp
  from route_miss_single_refresh [OF k n miss, of "buildServiceDetails idle_ecs"] b miss2
  show ?thesis by (simp add: handler_def)
qed

text \<open>
  The message of the 404 does not identify the key: it does not contain the key \<open>99\<close>, and
  it is the same for the key \<open>98\<close>.
\<close>

theorem route_not_found_message_counterexample:
  "fst (handler idle_ecs demo_config (request_with ''99'') demo_snapshot)
     = [Lookup ''99'', Refresh, Lookup ''99'', HttpError ''Service not found for Org-ID'' 404]
   \<and> \<not> Contains ''Service not found for Org-ID'' ''99''
   \<and> last (fst (handler idle_ecs demo_config (request_with ''98'') demo_snapshot))
       = last (fst (handler idle_ecs demo_config (request_with ''99'') demo_snapshot))"
  by (simp add: handler_def route_def Header_Get_def request_with_def demo_config_def
      demo_snapshot_def buildServiceDetails_def listServices_def listTasks_def
      getServiceDetails_def idle_ecs_def StatusNotFound_def Let_def)

text \<open>
  A run of the handler calls \<open>buildServiceDetails\<close> once when its first lookup misses and
  not at all when it finds the key, whatever the key and the client's answers.
\<close>

lemma route_refresh_count:
  "count_list (fst (route build config r serviceDetails)) Refresh
     = (if snd (getServiceDetail (Header_Get (Header r) (HeaderRoutingName config)) serviceDetails)
        then 0 else 1)"
  by (cases "build (ECSCluster config)")
     (auto simp: route_def Let_def case_prod_beta)

text \<open>
  Claim C5, as the program has it. The handler has no single-flight coordination: every
  run whose first lookup misses issues a refresh of its own, whichever snapshot it read and
  whatever the other runs do, so the runs together issue as many refreshes as there are
  runs that missed; when all of \<open>N\<close> callers miss, \<open>N\<close> refreshes are issued.
\<close>

theorem every_miss_issues_its_own_refresh:
  "refreshes_issued config runs = length (filter (first_lookup_misses config) runs)
   \<and> ((\<forall>run \<in> set runs. first_lookup_misses config run) \<longrightarrow>
        refreshes_issued config runs = length runs)"
proof -
  have e: "refreshes_issued config runs = length (filter (first_lookup_misses config) runs)"
  proof (induction runs)
    case Nil
    then show ?case by (simp add: refreshes_issued_def)
  next
    case (Cons run runs)
    obtain build r sd where run: "run = (build, r, sd)" by (cases run) auto
    from Cons show ?case
      by (simp add: refreshes_issued_def run first_lookup_misses_def route_refresh_count)
  qed
  moreover have "length (filter (first_lookup_misses config) runs) = length runs"
    if "\<forall>run \<in> set runs. first_lookup_misses config run"
    using that by simp
  ultimately show ?thesis by simp
qed

text \<open>
  Three callers that miss, on different snapshots and with both revisions of the refresh:
  three refreshes.
\<close>

theorem every_miss_issues_its_own_refresh_witness:
  "first_lookup_misses demo_config (buildServiceDetails idle_ecs, request_with ''99'', demo_snapshot)
   \<and> first_lookup_misses demo_config (buildServiceDetails demo_ecs, request_with ''7'', [])
   \<and> first_lookup_misses demo_config (buildServiceDetails_src demo_ecs, request_with ''7'', demo_snapshot)
   \<and> refreshes_issued demo_config
       [(buildServiceDetails idle_ecs, request_with ''99'', demo_snapshot),
        (buildServiceDetails demo_ecs, request_with ''7'', []),
        (buildServiceDetails_src demo_ecs, request_with ''7'', demo_snapshot)] = 3"
proof -
  let ?a = "(buildServiceDetails idle_ecs, request_with ''99'', demo_snapshot)"
  let ?b = "(buildServiceDetails demo_ecs, request_with ''7'', [])"
  let ?c = "(buildServiceDetails_src demo_ecs, request_with ''7'', demo_snapshot)"
  have m: "first_lookup_misses demo_config ?a" "first_lookup_misses demo_config ?b"
      "first_lookup_misses demo_config ?c"
    by (simp_all add: first_lookup_misses_def Header_Get_def request_with_def demo_config_def
        demo_snapshot_def)
  then have h: "\<forall>run \<in> set [?a, ?b, ?c]. first_lookup_misses demo_config run" by simp
  from every_miss_issues_its_own_refresh [of demo_config "[?a, ?b, ?c]"] h
  have "refreshes_issued demo_config [?a, ?b, ?c] = length [?a, ?b, ?c]" by blast
  with m show ?thesis by simp
qed

text \<open>
  Two callers ask for the key \<open>99\<close> while the snapshot is empty: both miss, and two
  refreshes are issued, not one.
\<close>

theorem single_flight_counterexample:
  "first_lookup_misses demo_config (buildServiceDetails idle_ecs, request_with ''99'', [])
   \<and> refreshes_issued demo_config
       [(buildServiceDetails idle_ecs, request_with ''99'', []),
        (buildServiceDetails idle_ecs, request_with ''99'', [])] = 2
   \<and> refreshes_issued demo_config
       [(buildServiceDetails idle_ecs, request_with ''99'', []),
        (buildServiceDetails idle_ecs, request_with ''99'', [])] \<noteq> 1"
  by (simp add: first_lookup_misses_def refreshes_issued_def route_def Let_def Header_Get_def
      request_with_def demo_config_def buildServiceDetails_def listServices_def listTasks_def
      getServiceDetails_def idle_ecs_def)

text \<open>
  With the empty key the handler calls \<open>http.Error\<close> with status 400 and the header's name,
  and goes on: a lookup of the empty key follows, and at least one more step.
\<close>

lemma route_empty_key_goes_on:
  "Header_Get (Header r) (HeaderRoutingName config) = [] \<Longrightarrow>
     \<exists>rest. fst (route build config r serviceDetails)
        = HttpError (''missing required header '' @ HeaderRoutingName config) 400
            # Lookup [] # rest
       \<and> rest \<noteq> []"
  by (cases "build (ECSCluster config)")
     (auto simp: route_def Let_def StatusBadRequest_def case_prod_beta)

text \<open>
  Claim C2 does not hold of the handler: the branch for the missing header has no
  \<open>return\<close>. For a request without the header, after the call of \<open>http.Error\<close> with status
  400, the handler looks the empty key up; with an empty snapshot it refreshes and calls
  \<open>http.Error\<close> with status 404, with a snapshot of one instance it calls \<open>http.Redirect\<close>
  to that instance, and when \<open>ListServices\<close> fails in the refresh the process exits.
\<close>

theorem handler_missing_header_goes_on:
  "handler idle_ecs demo_config request_without_header []
     = ([HttpError ''missing required header X-Org-ID'' 400, Lookup [], Refresh, Lookup [],
         HttpError ''Service not found for Org-ID'' 404], Returned [])
   \<and> handler idle_ecs demo_config request_without_header demo_snapshot
     = ([HttpError ''missing required header X-Org-ID'' 400, Lookup [],
         HttpRedirect ''http://10.0.0.5'' 307], Returned demo_snapshot)
   \<and> handler down_ecs demo_config request_without_header []
     = ([HttpError ''missing required header X-Org-ID'' 400, Lookup [], Refresh],
        Exited (OsExit ''Failed to list services: timeout''))"
  by (simp add: handler_def route_def Header_Get_def request_without_header_def demo_config_def
      demo_snapshot_def buildServiceDetails_def listServices_def listTasks_def
      getServiceDetails_def idle_ecs_def down_ecs_def aborted_def
      StatusBadRequest_def StatusNotFound_def StatusTemporaryRedirect_def)

section \<open>Properties of the configuration\<close>

text \<open>
  In the single-file program a variable that is not set and has no default panics, so a
  missing \<open>ECS_CLUSTER\<close> stops \<open>main\<close> before it serves.
\<close>

lemma getEnv_missing_mandatory:
  "env key = None \<Longrightarrow> getEnv env key [] = Inl (PanicError (''missing mandatory env '' @ key))"
  by (simp add: getEnv_def LookupEnv_def)

lemma getEnv_set: "env key = Some v \<Longrightarrow> getEnv env key d = Inr v"
  by (simp add: getEnv_def LookupEnv_def)

lemma getEnv_default: "env key = None \<Longrightarrow> d \<noteq> [] \<Longrightarrow> getEnv env key d = Inr d"
  by (simp add: getEnv_def LookupEnv_def)

lemma getEnv_total_with_default: "d \<noteq> [] \<Longrightarrow> \<exists>v. getEnv env key d = Inr v"
  by (cases "env key") (simp_all add: getEnv_set getEnv_default)

lemma LoadConfig_missing_cluster:
  assumes "env ''ECS_CLUSTER'' = None"
  shows "LoadConfig env = Inl (PanicError ''missing mandatory env ECS_CLUSTER'')
    \<and> main env newSession ecs = Stopped (PanicError ''missing mandatory env ECS_CLUSTER'')"
proof -
  obtain region where r: "getEnv env ''AWS_REGION'' ''us-west-2'' = Inr region"
    using getEnv_total_with_default [of "''us-west-2''" env "''AWS_REGION''"] by auto
  have c: "getEnv env ''ECS_CLUSTER'' [] = Inl (PanicError ''missing mandatory env ECS_CLUSTER'')"
    using getEnv_missing_mandatory [of env "''ECS_CLUSTER''"] assms by simp
  have l: "LoadConfig env = Inl (PanicError ''missing mandatory env ECS_CLUSTER'')"
    by (simp add: LoadConfig_def r c)
  then show ?thesis by (simp add: main_def startup_def)
qed

text \<open>
  \<open>getEnv\<close> of the separate configuration file returns the value or the default.
\<close>

lemma getEnv_cfg_never_fails:
  "getEnv_cfg env key d = (case env key of Some v \<Rightarrow> v | None \<Rightarrow> d)"
  by (simp add: getEnv_cfg_def LookupEnv_def split: option.splits)

text \<open>
  Claim C8 does not hold of the program under \<open>src/\<close>: with \<open>ECS_CLUSTER\<close> missing from the
  environment its \<open>LoadConfig\<close> returns a configuration whose cluster is the empty string,
  and \<open>main\<close> goes on to serve; the single-file program stops with the panic
  \<open>missing mandatory env ECS_CLUSTER\<close>.
\<close>

theorem LoadConfig_cfg_missing_cluster_serves:
  "LoadConfig_cfg Map.empty
     = \<lparr>AWSRegion = ''us-west-2'', ECSCluster = [], ProxyPort = ''8080'',
        HeaderRoutingName = ''X-Org-ID''\<rparr>
   \<and> main_src Map.empty None idle_ecs
     = Serving \<lparr>AWSRegion = ''us-west-2'', ECSCluster = [], ProxyPort = ''8080'',
        HeaderRoutingName = ''X-Org-ID''\<rparr> []
   \<and> main Map.empty None idle_ecs = Stopped (PanicError ''missing mandatory env ECS_CLUSTER'')"
  by (simp add: LoadConfig_cfg_def getEnv_cfg_def LookupEnv_def main_src_def startup_def
      buildServiceDetails_src_def listServices_def listTasks_src_def idle_ecs_def
      getServiceDetails_def main_def LoadConfig_def getEnv_def)

end
